theory Spec2Isabelle
  imports Main
begin

section \<open>Items and collections\<close>

text \<open>
  \<^verbatim>\<open>type Item struct { ID int; Name string }\<close> and \<^verbatim>\<open>type ItemDict = map[int]Item\<close>.
  Go's \<^verbatim>\<open>int\<close> is read as a mathematical integer: the program never computes with an
  id, and \<open>Atoi\<close> below refuses what does not fit 64 bits.
\<close>

record Item =
  ID :: int
  Name :: string

type_synonym ItemDict = "int \<rightharpoonup> Item"

text \<open>Reading a Go map at a key it does not hold gives the zero value of the element type.\<close>

definition zero_Item :: Item where
  "zero_Item = \<lparr>ID = 0, Name = []\<rparr>"

definition lookup :: "ItemDict \<Rightarrow> int \<Rightarrow> Item" where
  "lookup itemDict k = (case itemDict k of None \<Rightarrow> zero_Item | Some item \<Rightarrow> item)"

datatype error =
    Stat_failed
  | Create_failed
  | Open_failed
  | Read_failed
  | Unmarshal_failed
  | Write_failed
  | Index_out_of_range int
  | Atoi_syntax
  | Atoi_range

section \<open>The backing file\<close>

text \<open>
  The one file at \<^verbatim>\<open>./db/data.json\<close>: its bytes when it is present, what the operating
  system will answer to each kind of call, and the calls made so far (oldest first).
  A write that fails either leaves the file alone or leaves the first \<open>n\<close> bytes of what
  was to be written.
\<close>

datatype syscall = Stat | Create | Open | ReadAll | WriteFile string

datatype write_fault = Write_refused | Write_torn nat

record filesystem =
  contents :: "string option"
  create_fails :: bool
  open_fails :: bool
  read_fails :: bool
  write_fault :: "write_fault option"
  calls :: "syscall list"

definition called :: "syscall \<Rightarrow> filesystem \<Rightarrow> filesystem" where
  "called c fs = fs\<lparr>calls := calls fs @ [c]\<rparr>"

definition os_Stat :: "filesystem \<Rightarrow> error option \<times> filesystem" where
  "os_Stat fs =
     (case contents fs of
        None \<Rightarrow> (Some Stat_failed, called Stat fs)
      | Some bytes \<Rightarrow> (None, called Stat fs))"

definition os_Create :: "filesystem \<Rightarrow> error option \<times> filesystem" where
  "os_Create fs =
     (if create_fails fs then (Some Create_failed, called Create fs)
      else (None, called Create (fs\<lparr>contents := Some []\<rparr>)))"

definition os_Open :: "filesystem \<Rightarrow> error option \<times> filesystem" where
  "os_Open fs =
     (case contents fs of
        None \<Rightarrow> (Some Open_failed, called Open fs)
      | Some bytes \<Rightarrow>
          if open_fails fs then (Some Open_failed, called Open fs)
          else (None, called Open fs))"

definition io_ReadAll :: "filesystem \<Rightarrow> (error + string) \<times> filesystem" where
  "io_ReadAll fs =
     (case contents fs of
        None \<Rightarrow> (Inl Read_failed, called ReadAll fs)
      | Some bytes \<Rightarrow>
          if read_fails fs then (Inl Read_failed, called ReadAll fs)
          else (Inr bytes, called ReadAll fs))"

definition os_WriteFile :: "string \<Rightarrow> filesystem \<Rightarrow> error option \<times> filesystem" where
  "os_WriteFile bytes fs =
     (case write_fault fs of
        None \<Rightarrow> (None, called (WriteFile bytes) (fs\<lparr>contents := Some bytes\<rparr>))
      | Some Write_refused \<Rightarrow> (Some Write_failed, called (WriteFile bytes) fs)
      | Some (Write_torn n) \<Rightarrow>
          (Some Write_failed, called (WriteFile bytes) (fs\<lparr>contents := Some (take n bytes)\<rparr>)))"

text \<open>The calls that can change the file.\<close>

fun mutating :: "syscall \<Rightarrow> bool" where
  "mutating Create = True"
| "mutating (WriteFile bytes) = True"
| "mutating Stat = False"
| "mutating Open = False"
| "mutating ReadAll = False"

section \<open>The JSON library\<close>

text \<open>
  \<^verbatim>\<open>encoding/json\<close> is not part of the repository. The four uses the program makes of
  it are parameters of the model: \<^verbatim>\<open>json.Marshal\<close> on a slice of items,
  \<^verbatim>\<open>json.Unmarshal\<close> into a slice of items, \<^verbatim>\<open>Encoder.Encode\<close> of one item (the
  bytes it writes to the response) and \<^verbatim>\<open>Decoder.Decode\<close> of a request body into an
  item.
\<close>

record json =
  Marshal :: "Item list \<Rightarrow> string"
  Unmarshal :: "string \<Rightarrow> Item list option"
  Encode :: "Item \<Rightarrow> string"
  Decode :: "string \<Rightarrow> Item option"

section \<open>JsonDatabase\<close>

text \<open>
  Each method takes \<^verbatim>\<open>jsonFileMutex\<close> on entry and gives it back on return, and the
  handlers that change the collection do the same with \<^verbatim>\<open>DatabaseMutex\<close>. A request
  running alone never waits for either, so the sequential model has no lock state.
\<close>

definition Exists :: "filesystem \<Rightarrow> bool \<times> filesystem" where
  "Exists fs = (case os_Stat fs of (err, fs1) \<Rightarrow> (err = None, fs1))"

definition CreateJsonFile :: "filesystem \<Rightarrow> error option \<times> filesystem" where
  "CreateJsonFile fs =
     (case os_Create fs of
        (Some err, fs1) \<Rightarrow> (Some err, fs1)
      | (None, fs1) \<Rightarrow> (None, fs1))"

text \<open>The loop \<^verbatim>\<open>for _, item := range items { itemDict[item.ID] = item }\<close>.\<close>

fun insert_all :: "ItemDict \<Rightarrow> Item list \<Rightarrow> ItemDict" where
  "insert_all itemDict [] = itemDict"
| "insert_all itemDict (item # items) = insert_all (itemDict(ID item \<mapsto> item)) items"

definition ReadJsonFile :: "json \<Rightarrow> filesystem \<Rightarrow> (error + ItemDict) \<times> filesystem" where
  "ReadJsonFile J fs =
     (case os_Open fs of
        (Some err, fs1) \<Rightarrow> (Inl err, fs1)
      | (None, fs1) \<Rightarrow>
          (case io_ReadAll fs1 of
             (Inl err, fs2) \<Rightarrow> (Inl err, fs2)
           | (Inr bytedata, fs2) \<Rightarrow>
               (case Unmarshal J bytedata of
                  None \<Rightarrow> (Inl Unmarshal_failed, fs2)
                | Some items \<Rightarrow> (Inr (insert_all Map.empty items), fs2))))"

text \<open>
  \<^verbatim>\<open>for _, item := range *itemDict\<close> visits the entries in an order the runtime picks
  anew each time. The order is the parameter \<open>ks\<close>, the keys as visited; \<open>range_order\<close>
  says that it is an enumeration of the map's keys. A key the map does not hold adds
  nothing to the slice.
\<close>

definition range_order :: "ItemDict \<Rightarrow> int list \<Rightarrow> bool" where
  "range_order itemDict ks = (distinct ks \<and> set ks = dom itemDict)"

definition WriteJsonFile ::
  "json \<Rightarrow> int list \<Rightarrow> ItemDict \<Rightarrow> filesystem \<Rightarrow> error option \<times> filesystem" where
  "WriteJsonFile J ks itemDict fs =
     (let items = List.map_filter itemDict ks;
          bytes = Marshal J items
      in case os_Open fs of
           (Some err, fs1) \<Rightarrow> (Some err, fs1)
         | (None, fs1) \<Rightarrow>
             (case os_WriteFile bytes fs1 of
                (Some err, fs2) \<Rightarrow> (Some err, fs2)
              | (None, fs2) \<Rightarrow> (None, fs2)))"

section \<open>Path parameters\<close>

text \<open>\<^verbatim>\<open>strings.Split(s, "/")\<close>: the pieces of \<open>s\<close> between the separators, at least one.\<close>

fun Split :: "string \<Rightarrow> char \<Rightarrow> string list" where
  "Split [] sep = [[]]"
| "Split (c # cs) sep =
     (if c = sep then [] # Split cs sep
      else (case Split cs sep of
              [] \<Rightarrow> [[c]]
            | piece # pieces \<Rightarrow> (c # piece) # pieces))"

text \<open>
  \<^verbatim>\<open>strconv.Atoi\<close>: an optional sign, then one decimal digit or more and nothing else;
  the value has to fit Go's 64-bit \<^verbatim>\<open>int\<close>.
\<close>

definition is_digit :: "char \<Rightarrow> bool" where
  "is_digit c = (48 \<le> (of_char c :: nat) \<and> (of_char c :: nat) \<le> 57)"

definition digit_val :: "char \<Rightarrow> int" where
  "digit_val c = int (of_char c) - 48"

definition decimal :: "string \<Rightarrow> int" where
  "decimal ds = foldl (\<lambda>a c. 10 * a + digit_val c) 0 ds"

definition Atoi :: "string \<Rightarrow> error + int" where
  "Atoi s =
     (let (neg, ds) =
            (case s of
               [] \<Rightarrow> (False, s)
             | c # cs \<Rightarrow>
                 if c = CHR ''-'' then (True, cs)
                 else if c = CHR ''+'' then (False, cs)
                 else (False, s))
      in if ds = [] then Inl Atoi_syntax
         else if list_all is_digit ds then
           (let v = (if neg then - decimal ds else decimal ds)
            in if - (2 ^ 63) \<le> v \<and> v < 2 ^ 63 then Inr v else Inl Atoi_range)
         else Inl Atoi_syntax)"

definition getNthPathSegment :: "string list \<Rightarrow> int \<Rightarrow> error + string" where
  "getNthPathSegment pathSegments n =
     (if n < 0 \<or> int (length pathSegments) \<le> n then Inl (Index_out_of_range n)
      else Inr (pathSegments ! nat n))"

section \<open>Requests and responses\<close>

record request =
  Method :: string
  Path :: string
  Body :: string

record response =
  status :: nat
  body :: string

text \<open>
  \<^verbatim>\<open>http.Error(w, msg, code)\<close> answers with the code and the message on a line. The
  variable the source calls \<^verbatim>\<open>id\<close> is \<open>idn\<close> below, \<open>id\<close> being the identity function.
\<close>

definition http_Error :: "string \<Rightarrow> nat \<Rightarrow> response" where
  "http_Error msg code = \<lparr>status = code, body = msg @ [CHR 0x0A]\<rparr>"

definition extractPathParameters :: "request \<Rightarrow> error + int" where
  "extractPathParameters r =
     (let pathSegments = Split (Path r) (CHR ''/'')
      in case getNthPathSegment pathSegments 2 of
           Inl err \<Rightarrow> Inl err
         | Inr idStr \<Rightarrow>
             (case Atoi idStr of
                Inl err \<Rightarrow> Inl err
              | Inr idn \<Rightarrow> Inr idn))"

section \<open>The handlers of \<^verbatim>\<open>src/main.go\<close>\<close>

definition getItem :: "json \<Rightarrow> request \<Rightarrow> filesystem \<Rightarrow> response \<times> filesystem" where
  "getItem J r fs =
     (case extractPathParameters r of
        Inl err \<Rightarrow> (http_Error ''Invalid Parameter'' 400, fs)
      | Inr idn \<Rightarrow>
          (case ReadJsonFile J fs of
             (Inl err, fs1) \<Rightarrow> (http_Error ''Internal server error'' 500, fs1)
           | (Inr loadedItems, fs1) \<Rightarrow>
               (case loadedItems idn of
                  None \<Rightarrow> (http_Error ''Not found'' 404, fs1)
                | Some item \<Rightarrow>
                    (\<lparr>status = 200, body = Encode J (lookup loadedItems idn)\<rparr>, fs1))))"

text \<open>
  \<open>deleteItem\<close> and \<open>postItem\<close> drop the error \<open>WriteJsonFile\<close> returns: the answer is
  the same whether the save went through or not.
\<close>

definition deleteItem ::
  "json \<Rightarrow> int list \<Rightarrow> request \<Rightarrow> filesystem \<Rightarrow> response \<times> filesystem" where
  "deleteItem J ks r fs =
     (case extractPathParameters r of
        Inl err \<Rightarrow> (http_Error ''Invalid Parameter'' 400, fs)
      | Inr idn \<Rightarrow>
          (case ReadJsonFile J fs of
             (Inl err, fs1) \<Rightarrow> (http_Error ''Internal server error'' 500, fs1)
           | (Inr loadedItems, fs1) \<Rightarrow>
               (case loadedItems idn of
                  None \<Rightarrow> (http_Error ''Not found'' 404, fs1)
                | Some item \<Rightarrow>
                    (case WriteJsonFile J ks (loadedItems(idn := None)) fs1 of
                       (err, fs2) \<Rightarrow> (\<lparr>status = 204, body = []\<rparr>, fs2)))))"

definition postItem ::
  "json \<Rightarrow> int list \<Rightarrow> request \<Rightarrow> filesystem \<Rightarrow> response \<times> filesystem" where
  "postItem J ks r fs =
     (case Decode J (Body r) of
        None \<Rightarrow> (http_Error ''Invalid Parameter'' 400, fs)
      | Some newItem \<Rightarrow>
          (case ReadJsonFile J fs of
             (Inl err, fs1) \<Rightarrow> (http_Error ''Internal server error'' 500, fs1)
           | (Inr loadedItems, fs1) \<Rightarrow>
               (let stored = loadedItems(ID newItem \<mapsto> newItem)
                in case WriteJsonFile J ks stored fs1 of
                     (err, fs2) \<Rightarrow>
                       (\<lparr>status = 200, body = Encode J (lookup stored (ID newItem))\<rparr>, fs2))))"

section \<open>Startup\<close>

text \<open>
  \<open>main\<close> up to the point where it starts to listen: either it has panicked with the
  error of \<open>CreateJsonFile\<close>, or it goes on to serve requests.
\<close>

datatype startup = Panic error | Serving

definition main :: "filesystem \<Rightarrow> startup \<times> filesystem" where
  "main fs =
     (case Exists fs of
        (True, fs1) \<Rightarrow> (Serving, fs1)
      | (False, fs1) \<Rightarrow>
          (case CreateJsonFile fs1 of
             (Some err, fs2) \<Rightarrow> (Panic err, fs2)
           | (None, fs2) \<Rightarrow> (Serving, fs2)))"

section \<open>The earlier \<open>getItem\<close> of \<^verbatim>\<open>src/unnamed/part_000\<close>\<close>

text \<open>
  This revision reads the id from the third path segment and a name from the fourth, and
  tells a known id from an unknown one by comparing the id with the \<open>ID\<close> of what the
  map gives back.
\<close>

definition extractParams :: "request \<Rightarrow> error + int \<times> string" where
  "extractParams r =
     (let pathSegments = Split (Path r) (CHR ''/'')
      in case getNthPathSegment pathSegments 2 of
           Inl err \<Rightarrow> Inl err
         | Inr idStr \<Rightarrow>
             (case Atoi idStr of
                Inl err \<Rightarrow> Inl err
              | Inr idn \<Rightarrow>
                  (case getNthPathSegment pathSegments 3 of
                     Inl err \<Rightarrow> Inl err
                   | Inr name \<Rightarrow> Inr (idn, name))))"

definition getItem_part_000 :: "json \<Rightarrow> request \<Rightarrow> filesystem \<Rightarrow> response \<times> filesystem" where
  "getItem_part_000 J r fs =
     (case extractParams r of
        Inl err \<Rightarrow> (http_Error ''Invalid Parameter'' 400, fs)
      | Inr (idn, name) \<Rightarrow>
          (case ReadJsonFile J fs of
             (Inl err, fs1) \<Rightarrow> (http_Error ''Internal server error'' 500, fs1)
           | (Inr loadedItems, fs1) \<Rightarrow>
               if idn \<noteq> ID (lookup loadedItems idn) then (http_Error ''Invalid ID'' 400, fs1)
               else (\<lparr>status = 200, body = Encode J (lookup loadedItems idn)\<rparr>, fs1)))"

section \<open>Sample data\<close>

definition no_file :: filesystem where
  "no_file =
     \<lparr>contents = None, create_fails = False, open_fails = False, read_fails = False,
      write_fault = None, calls = []\<rparr>"

definition file_with :: "string \<Rightarrow> filesystem" where
  "file_with bytes = no_file\<lparr>contents := Some bytes\<rparr>"

definition item_a :: Item where
  "item_a = \<lparr>ID = 1, Name = ''a''\<rparr>"

definition item_b :: Item where
  "item_b = \<lparr>ID = 2, Name = ''b''\<rparr>"

definition item_c :: Item where
  "item_c = \<lparr>ID = 1, Name = ''c''\<rparr>"

definition get_abc :: request where
  "get_abc = \<lparr>Method = ''GET'', Path = ''/abc'', Body = []\<rparr>"

definition get_items_abc :: request where
  "get_items_abc = \<lparr>Method = ''GET'', Path = ''/items/abc'', Body = []\<rparr>"

definition get_bare_1 :: request where
  "get_bare_1 = \<lparr>Method = ''GET'', Path = ''/1'', Body = []\<rparr>"

definition post_c :: request where
  \<open>post_c = \<lparr>Method = ''POST'', Path = ''/'', Body = ''{"id":1,"name":"c"}''\<rparr>\<close>

definition delete_bare_1 :: request where
  "delete_bare_1 = \<lparr>Method = ''DELETE'', Path = ''/1'', Body = []\<rparr>"

definition get_1 :: request where
  "get_1 = \<lparr>Method = ''GET'', Path = ''/items/1'', Body = []\<rparr>"

definition delete_1 :: request where
  "delete_1 = \<lparr>Method = ''DELETE'', Path = ''/items/1'', Body = []\<rparr>"

definition post_a :: request where
  \<open>post_a = \<lparr>Method = ''POST'', Path = ''/'', Body = ''{"id":1,"name":"a"}''\<rparr>\<close>

definition get_0_x :: request where
  "get_0_x = \<lparr>Method = ''GET'', Path = ''/GET/0/x'', Body = []\<rparr>"

definition get_5_x :: request where
  "get_5_x = \<lparr>Method = ''GET'', Path = ''/GET/5/x'', Body = []\<rparr>"

definition file_ab :: filesystem where
  \<open>file_ab = file_with ''[{"id":1,"name":"a"},{"id":2,"name":"b"}]''\<close>

section \<open>Conditions the statements below use\<close>

text \<open>A collection is keyed by id when every entry sits under its item's own id.\<close>

definition keyed_by_id :: "ItemDict \<Rightarrow> bool" where
  "keyed_by_id itemDict = (\<forall>k item. itemDict k = Some item \<longrightarrow> ID item = k)"

text \<open>The JSON library reads a slice of items back from the bytes it wrote for it.\<close>

definition reads_back :: "json \<Rightarrow> Item list \<Rightarrow> bool" where
  "reads_back J items = (Unmarshal J (Marshal J items) = Some items)"

text \<open>The calls so far that could change the file, oldest first.\<close>

definition mutations :: "filesystem \<Rightarrow> syscall list" where
  "mutations fs = filter mutating (calls fs)"

section \<open>A JSON codec to run the model on\<close>

text \<open>
  \<open>plain_json\<close> stands in for \<^verbatim>\<open>encoding/json\<close> wherever the model is run on concrete
  bytes. It writes an item as \<^verbatim>\<open>{"id":1,"name":"a"}\<close> and a slice as such objects
  between brackets, separated by commas, with a quote or backslash in a name escaped by a
  backslash; it reads exactly that form back and refuses everything else, the empty
  input included.
\<close>

definition show_digit :: "nat \<Rightarrow> char" where
  "show_digit d = ''0123456789'' ! d"

function show_nat :: "nat \<Rightarrow> string" where
  "show_nat n = (if n < 10 then [show_digit n] else show_nat (n div 10) @ [show_digit (n mod 10)])"
  by pat_completeness auto
termination
  by (relation "measure (\<lambda>n. n)") auto

declare show_nat.simps [simp del]

definition show_int :: "int \<Rightarrow> string" where
  "show_int i = (if i < 0 then CHR ''-'' # show_nat (nat (- i)) else show_nat (nat i))"

definition quote :: char where
  "quote = CHR 0x22"

definition backslash :: char where
  "backslash = CHR 0x5C"

fun escape :: "string \<Rightarrow> string" where
  "escape [] = []"
| "escape (c # cs) =
     (if c = quote \<or> c = backslash then backslash # c # escape cs else c # escape cs)"

definition show_Item :: "Item \<Rightarrow> string" where
  \<open>show_Item item =
     ''{"id":'' @ show_int (ID item) @ '',"name":"'' @ escape (Name item) @ ''"}''\<close>

fun show_items :: "Item list \<Rightarrow> string" where
  "show_items [] = []"
| "show_items [item] = show_Item item"
| "show_items (item # next # items) = show_Item item @ CHR '','' # show_items (next # items)"

fun strip_prefix :: "string \<Rightarrow> string \<Rightarrow> string option" where
  "strip_prefix [] s = Some s"
| "strip_prefix (p # ps) [] = None"
| "strip_prefix (p # ps) (c # cs) = (if p = c then strip_prefix ps cs else None)"

definition read_int :: "string \<Rightarrow> (int \<times> string) option" where
  "read_int s =
     (let (neg, r) =
            (case s of
               [] \<Rightarrow> (False, s)
             | c # cs \<Rightarrow> if c = CHR ''-'' then (True, cs) else (False, s));
          ds = takeWhile is_digit r
      in if ds = [] then None
         else Some (if neg then - decimal ds else decimal ds, dropWhile is_digit r))"

fun read_string :: "string \<Rightarrow> (string \<times> string) option" where
  "read_string [] = None"
| "read_string (c # cs) =
     (if c = quote then Some ([], cs)
      else if c = backslash then
        (case cs of
           [] \<Rightarrow> None
         | e # es \<Rightarrow>
             if e = quote \<or> e = backslash then
               (case read_string es of
                  None \<Rightarrow> None
                | Some (str, rest) \<Rightarrow> Some (e # str, rest))
             else None)
      else (case read_string cs of
              None \<Rightarrow> None
            | Some (str, rest) \<Rightarrow> Some (c # str, rest)))"

definition read_Item :: "string \<Rightarrow> (Item \<times> string) option" where
  \<open>read_Item s =
     (case strip_prefix ''{"id":'' s of
        None \<Rightarrow> None
      | Some r1 \<Rightarrow>
          (case read_int r1 of
             None \<Rightarrow> None
           | Some (i, r2) \<Rightarrow>
               (case strip_prefix '',"name":"'' r2 of
                  None \<Rightarrow> None
                | Some r3 \<Rightarrow>
                    (case read_string r3 of
                       None \<Rightarrow> None
                     | Some (n, r4) \<Rightarrow>
                         (case strip_prefix ''}'' r4 of
                            None \<Rightarrow> None
                          | Some r5 \<Rightarrow> Some (\<lparr>ID = i, Name = n\<rparr>, r5))))))\<close>

text \<open>
  What follows an item: a closing bracket at the very end, or a comma and one more item.
  The first argument bounds the number of items still to be read; \<open>read_items\<close> passes
  the length of the input, and every item takes more than one byte.
\<close>

fun read_tail :: "nat \<Rightarrow> string \<Rightarrow> Item list option" where
  "read_tail 0 s = None"
| "read_tail (Suc fuel) s =
     (case s of
        [] \<Rightarrow> None
      | c # cs \<Rightarrow>
          if c = CHR '']'' then (if cs = [] then Some [] else None)
          else if c = CHR '','' then
            (case read_Item cs of
               None \<Rightarrow> None
             | Some (item, rest) \<Rightarrow> map_option ((#) item) (read_tail fuel rest))
          else None)"

definition read_items :: "string \<Rightarrow> Item list option" where
  "read_items s =
     (case s of
        [] \<Rightarrow> None
      | c # cs \<Rightarrow>
          if c = CHR ''['' then
            (case cs of
               [] \<Rightarrow> None
             | d # ds \<Rightarrow>
                 if d = CHR '']'' then (if ds = [] then Some [] else None)
                 else (case read_Item cs of
                         None \<Rightarrow> None
                       | Some (item, rest) \<Rightarrow>
                           map_option ((#) item) (read_tail (length rest) rest)))
          else None)"

definition plain_json :: json where
  "plain_json =
     \<lparr>Marshal = (\<lambda>items. CHR ''['' # show_items items @ '']''),
      Unmarshal = read_items,
      Encode = (\<lambda>item. show_Item item @ [CHR 0x0A]),
      Decode = (\<lambda>s. map_option fst (read_Item s))\<rparr>"

section \<open>What loading and saving do\<close>

lemma insert_all_lookup:
  "distinct (map ID items) \<Longrightarrow>
   insert_all itemDict items k =
     (case find (\<lambda>item. ID item = k) items of None \<Rightarrow> itemDict k | Some item \<Rightarrow> Some item)"
proof (induction items arbitrary: itemDict)
  case Nil
  then show ?case by simp
next
  case (Cons item items)
  have step: "insert_all (itemDict(ID item \<mapsto> item)) items k =
      (case find (\<lambda>item. ID item = k) items of
         None \<Rightarrow> (itemDict(ID item \<mapsto> item)) k
       | Some found \<Rightarrow> Some found)"
    using Cons by simp
  show ?case
  proof (cases "ID item = k")
    case True
    then have "find (\<lambda>item. ID item = k) items = None"
      using Cons.prems by (auto simp: find_None_iff image_iff)
    with step True show ?thesis by (simp split: option.splits)
  next
    case False
    with step show ?thesis by (simp split: option.splits)
  qed
qed

lemma map_filter_keys:
  "set ks \<subseteq> dom itemDict \<Longrightarrow> keyed_by_id itemDict \<Longrightarrow>
   map ID (List.map_filter itemDict ks) = ks"
  by (induction ks) (auto simp: List.map_filter_simps keyed_by_id_def split: option.splits)

lemma find_map_filter:
  "set ks \<subseteq> dom itemDict \<Longrightarrow> keyed_by_id itemDict \<Longrightarrow>
   find (\<lambda>item. ID item = k) (List.map_filter itemDict ks) =
     (if k \<in> set ks then itemDict k else None)"
  by (induction ks) (auto simp: List.map_filter_simps keyed_by_id_def split: option.splits)

lemma insert_all_map_filter:
  assumes "range_order itemDict ks" and "keyed_by_id itemDict"
  shows "insert_all Map.empty (List.map_filter itemDict ks) = itemDict"
proof
  fix k
  from assms have sub: "set ks \<subseteq> dom itemDict" and d: "distinct ks" and all: "dom itemDict \<subseteq> set ks"
    by (auto simp: range_order_def)
  have "distinct (map ID (List.map_filter itemDict ks))"
    using map_filter_keys [OF sub assms(2)] d by simp
  then show "insert_all Map.empty (List.map_filter itemDict ks) k = itemDict k"
    using find_map_filter [OF sub assms(2), of k] all
    by (auto simp: insert_all_lookup split: option.splits)
qed

lemma keyed_by_id_insert:
  "keyed_by_id itemDict \<Longrightarrow> keyed_by_id (itemDict(ID item \<mapsto> item))"
  by (simp add: keyed_by_id_def)

lemma insert_all_keyed:
  "keyed_by_id itemDict \<Longrightarrow> keyed_by_id (insert_all itemDict items)"
  by (induction items arbitrary: itemDict) (simp_all add: keyed_by_id_insert)

lemma ReadJsonFile_Inr:
  "fst (ReadJsonFile J fs) = Inr itemDict \<longleftrightarrow>
   (\<exists>bytes items. contents fs = Some bytes \<and> \<not> open_fails fs \<and> \<not> read_fails fs
      \<and> Unmarshal J bytes = Some items \<and> itemDict = insert_all Map.empty items)"
  by (auto simp: ReadJsonFile_def os_Open_def io_ReadAll_def called_def split: option.splits)

lemma ReadJsonFile_snd:
  "snd (ReadJsonFile J fs) =
     (if contents fs = None \<or> open_fails fs then called Open fs
      else called ReadAll (called Open fs))"
  by (auto simp: ReadJsonFile_def os_Open_def io_ReadAll_def called_def split: option.splits)

lemma ReadJsonFile_keyed:
  "fst (ReadJsonFile J fs) = Inr itemDict \<Longrightarrow> keyed_by_id itemDict"
proof -
  have "keyed_by_id Map.empty"
    by (simp add: keyed_by_id_def)
  then show "fst (ReadJsonFile J fs) = Inr itemDict \<Longrightarrow> keyed_by_id itemDict"
    by (auto simp: ReadJsonFile_Inr intro: insert_all_keyed)
qed

lemma WriteJsonFile_ok:
  "fst (WriteJsonFile J ks itemDict fs) = None \<longleftrightarrow>
   (contents fs \<noteq> None \<and> \<not> open_fails fs \<and> write_fault fs = None)"
  by (auto simp: WriteJsonFile_def os_Open_def os_WriteFile_def called_def Let_def
      split: option.splits write_fault.splits)

lemma WriteJsonFile_snd:
  "contents fs = Some old \<Longrightarrow> \<not> open_fails fs \<Longrightarrow> write_fault fs = None \<Longrightarrow>
   snd (WriteJsonFile J ks itemDict fs) =
     called (WriteFile (Marshal J (List.map_filter itemDict ks)))
       (called Open fs\<lparr>contents := Some (Marshal J (List.map_filter itemDict ks))\<rparr>)"
  by (auto simp: WriteJsonFile_def os_Open_def os_WriteFile_def called_def Let_def
      split: option.splits write_fault.splits)

lemma insert_all_Some:
  "insert_all itemDict items k = Some item \<Longrightarrow>
   item \<in> set items \<and> ID item = k \<or> itemDict k = Some item"
proof (induction items arbitrary: itemDict)
  case Nil
  then show ?case by simp
next
  case (Cons x xs)
  from Cons.prems have "insert_all (itemDict(ID x \<mapsto> x)) xs k = Some item"
    by simp
  from Cons.IH [OF this]
  have "item \<in> set xs \<and> ID item = k \<or> (itemDict(ID x \<mapsto> x)) k = Some item" .
  then show ?case
    by (auto split: if_splits)
qed

lemma insert_all_keeps:
  "itemDict k = Some item \<Longrightarrow>
   \<exists>last. insert_all itemDict items k = Some last
      \<and> (last = item \<or> last \<in> set items \<and> ID last = k)"
proof (induction items arbitrary: itemDict item)
  case Nil
  then show ?case by simp
next
  case (Cons x xs)
  show ?case
  proof (cases "ID x = k")
    case True
    then have "(itemDict(ID x \<mapsto> x)) k = Some x"
      by simp
    from Cons.IH [of "itemDict(ID x \<mapsto> x)" x, OF this] obtain last where
      "insert_all (itemDict(ID x \<mapsto> x)) xs k = Some last" "last = x \<or> last \<in> set xs \<and> ID last = k"
      by blast
    with True show ?thesis
      by auto
  next
    case False
    with Cons.prems have "(itemDict(ID x \<mapsto> x)) k = Some item"
      by simp
    from Cons.IH [of "itemDict(ID x \<mapsto> x)" item, OF this] obtain last where
      "insert_all (itemDict(ID x \<mapsto> x)) xs k = Some last" "last = item \<or> last \<in> set xs \<and> ID last = k"
      by blast
    then show ?thesis
      by auto
  qed
qed

lemma insert_all_member:
  "item \<in> set items \<Longrightarrow>
   \<exists>last. last \<in> set items \<and> ID last = ID item
      \<and> insert_all itemDict items (ID item) = Some last"
proof (induction items arbitrary: itemDict)
  case Nil
  then show ?case by simp
next
  case (Cons x xs)
  show ?case
  proof (cases "item \<in> set xs")
    case True
    from Cons.IH [OF True, of "itemDict(ID x \<mapsto> x)"] obtain last where
      "last \<in> set xs" "ID last = ID item"
      "insert_all (itemDict(ID x \<mapsto> x)) xs (ID item) = Some last"
      by blast
    then show ?thesis
      by (intro exI [of _ last]) simp
  next
    case False
    with Cons.prems have same: "item = x"
      by simp
    have "(itemDict(ID x \<mapsto> x)) (ID x) = Some x"
      by simp
    from insert_all_keeps [where itemDict = "itemDict(ID x \<mapsto> x)" and k = "ID x" and item = x
        and items = xs, OF this]
    obtain last where
      "insert_all (itemDict(ID x \<mapsto> x)) xs (ID x) = Some last"
      "last = x \<or> last \<in> set xs \<and> ID last = ID x"
      by blast
    with same show ?thesis
      by (intro exI [of _ last]) auto
  qed
qed

lemma ran_insert_all:
  assumes "inj_on ID (set items)"
  shows "ran (insert_all Map.empty items) = set items"
proof
  show "ran (insert_all Map.empty items) \<subseteq> set items"
    by (auto simp: ran_def dest: insert_all_Some)
  show "set items \<subseteq> ran (insert_all Map.empty items)"
  proof
    fix item
    assume mem: "item \<in> set items"
    then obtain last where "last \<in> set items" "ID last = ID item"
        "insert_all Map.empty items (ID item) = Some last"
      using insert_all_member by blast
    with assms mem show "item \<in> ran (insert_all Map.empty items)"
      by (auto simp: ran_def dest: inj_onD)
  qed
qed

lemma set_map_filter:
  "range_order itemDict ks \<Longrightarrow> set (List.map_filter itemDict ks) = ran itemDict"
  by (force simp: range_order_def List.map_filter_def ran_def dom_def)

lemma called_simps [simp]:
  "contents (called c fs) = contents fs"
  "create_fails (called c fs) = create_fails fs"
  "open_fails (called c fs) = open_fails fs"
  "read_fails (called c fs) = read_fails fs"
  "write_fault (called c fs) = write_fault fs"
  "calls (called c fs) = calls fs @ [c]"
  by (simp_all add: called_def)

lemma ReadJsonFile_Inr_snd:
  "fst (ReadJsonFile J fs) = Inr itemDict \<Longrightarrow>
   snd (ReadJsonFile J fs) = called ReadAll (called Open fs)"
  by (auto simp: ReadJsonFile_Inr ReadJsonFile_snd)

lemma ReadJsonFile_contents: "contents (snd (ReadJsonFile J fs)) = contents fs"
  by (simp add: ReadJsonFile_snd)

lemma ReadJsonFile_mutations: "mutations (snd (ReadJsonFile J fs)) = mutations fs"
  by (simp add: ReadJsonFile_snd mutations_def)

lemma load_after_save:
  assumes "contents fs \<noteq> None" and "\<not> open_fails fs" and "\<not> read_fails fs"
      and "write_fault fs = None"
      and "range_order itemDict ks" and "keyed_by_id itemDict"
      and "reads_back J (List.map_filter itemDict ks)"
  shows "fst (ReadJsonFile J (snd (WriteJsonFile J ks itemDict fs))) = Inr itemDict"
proof -
  from assms(1) obtain old where old: "contents fs = Some old"
    by auto
  show ?thesis
    using assms insert_all_map_filter [OF assms(5,6)]
    by (simp add: WriteJsonFile_snd [OF old assms(2,4)] ReadJsonFile_Inr reads_back_def)
qed

lemma keyed_by_id_delete: "keyed_by_id itemDict \<Longrightarrow> keyed_by_id (itemDict(k := None))"
  by (simp add: keyed_by_id_def)

section \<open>What the handlers do, case by case\<close>

text \<open>
  A path of one slash and one piece splits in two, so it has no piece at index 2.
\<close>

lemma Split_without_separator: "sep \<notin> set s \<Longrightarrow> Split s sep = [s]"
  by (induction s) auto

lemma Split_bare_path:
  "CHR ''/'' \<notin> set seg \<Longrightarrow> Split (CHR ''/'' # seg) (CHR ''/'') = [[], seg]"
  by (simp add: Split_without_separator)

lemma extractPathParameters_bare_path:
  assumes "Path r = CHR ''/'' # seg" and "CHR ''/'' \<notin> set seg"
  shows "extractPathParameters r = Inl (Index_out_of_range 2)"
proof -
  have "Split (Path r) (CHR ''/'') = [[], seg]"
    using Split_bare_path [OF assms(2)] assms(1) by simp
  then show ?thesis
    by (simp add: extractPathParameters_def getNthPathSegment_def)
qed

lemma getItem_invalid:
  "extractPathParameters r = Inl err \<Longrightarrow> getItem J r fs = (http_Error ''Invalid Parameter'' 400, fs)"
  by (simp add: getItem_def)

lemma deleteItem_invalid:
  "extractPathParameters r = Inl err \<Longrightarrow>
   deleteItem J ks r fs = (http_Error ''Invalid Parameter'' 400, fs)"
  by (simp add: deleteItem_def)

lemma getItem_load_failed:
  "extractPathParameters r = Inr idn \<Longrightarrow> fst (ReadJsonFile J fs) = Inl err \<Longrightarrow>
   getItem J r fs = (http_Error ''Internal server error'' 500, snd (ReadJsonFile J fs))"
  by (cases "ReadJsonFile J fs") (simp add: getItem_def)

lemma deleteItem_load_failed:
  "extractPathParameters r = Inr idn \<Longrightarrow> fst (ReadJsonFile J fs) = Inl err \<Longrightarrow>
   deleteItem J ks r fs = (http_Error ''Internal server error'' 500, snd (ReadJsonFile J fs))"
  by (cases "ReadJsonFile J fs") (simp add: deleteItem_def)

lemma postItem_load_failed:
  "Decode J (Body r) = Some newItem \<Longrightarrow> fst (ReadJsonFile J fs) = Inl err \<Longrightarrow>
   postItem J ks r fs = (http_Error ''Internal server error'' 500, snd (ReadJsonFile J fs))"
  by (cases "ReadJsonFile J fs") (simp add: postItem_def)

lemma getItem_unknown_id:
  "extractPathParameters r = Inr idn \<Longrightarrow> fst (ReadJsonFile J fs) = Inr loadedItems \<Longrightarrow>
   loadedItems idn = None \<Longrightarrow>
   getItem J r fs = (http_Error ''Not found'' 404, snd (ReadJsonFile J fs))"
  by (cases "ReadJsonFile J fs") (simp add: getItem_def)

lemma getItem_known_id:
  "extractPathParameters r = Inr idn \<Longrightarrow> fst (ReadJsonFile J fs) = Inr loadedItems \<Longrightarrow>
   loadedItems idn = Some item \<Longrightarrow>
   getItem J r fs = (\<lparr>status = 200, body = Encode J item\<rparr>, snd (ReadJsonFile J fs))"
  by (cases "ReadJsonFile J fs") (simp add: getItem_def lookup_def)

lemma deleteItem_unknown_id:
  "extractPathParameters r = Inr idn \<Longrightarrow> fst (ReadJsonFile J fs) = Inr loadedItems \<Longrightarrow>
   loadedItems idn = None \<Longrightarrow>
   deleteItem J ks r fs = (http_Error ''Not found'' 404, snd (ReadJsonFile J fs))"
  by (cases "ReadJsonFile J fs") (simp add: deleteItem_def)

lemma deleteItem_known_id:
  "extractPathParameters r = Inr idn \<Longrightarrow> fst (ReadJsonFile J fs) = Inr loadedItems \<Longrightarrow>
   loadedItems idn = Some item \<Longrightarrow>
   deleteItem J ks r fs =
     (\<lparr>status = 204, body = []\<rparr>,
      snd (WriteJsonFile J ks (loadedItems(idn := None)) (snd (ReadJsonFile J fs))))"
  by (cases "ReadJsonFile J fs") (simp add: deleteItem_def split: prod.splits)

lemma postItem_malformed:
  "Decode J (Body r) = None \<Longrightarrow> postItem J ks r fs = (http_Error ''Invalid Parameter'' 400, fs)"
  by (simp add: postItem_def)

lemma postItem_loaded:
  "Decode J (Body r) = Some newItem \<Longrightarrow> fst (ReadJsonFile J fs) = Inr loadedItems \<Longrightarrow>
   postItem J ks r fs =
     (\<lparr>status = 200, body = Encode J newItem\<rparr>,
      snd (WriteJsonFile J ks (loadedItems(ID newItem \<mapsto> newItem)) (snd (ReadJsonFile J fs))))"
  by (cases "ReadJsonFile J fs") (simp add: postItem_def lookup_def Let_def split: prod.splits)

lemma load_after_load_and_save:
  assumes "fst (ReadJsonFile J fs) = Inr loadedItems" and "write_fault fs = None"
      and "range_order itemDict ks" and "keyed_by_id itemDict"
      and "reads_back J (List.map_filter itemDict ks)"
  shows "fst (ReadJsonFile J (snd (WriteJsonFile J ks itemDict (snd (ReadJsonFile J fs)))))
         = Inr itemDict"
proof -
  from assms(1) have ok: "contents fs \<noteq> None" "\<not> open_fails fs" "\<not> read_fails fs"
    by (auto simp: ReadJsonFile_Inr)
  show ?thesis
    using ok assms(2-) by (intro load_after_save) (simp_all add: ReadJsonFile_snd)
qed

lemma postItem_stored:
  assumes "Decode J (Body r) = Some newItem" and "fst (ReadJsonFile J fs) = Inr loadedItems"
      and "write_fault fs = None"
      and "range_order (loadedItems(ID newItem \<mapsto> newItem)) ks"
      and "reads_back J (List.map_filter (loadedItems(ID newItem \<mapsto> newItem)) ks)"
  shows "fst (ReadJsonFile J (snd (postItem J ks r fs))) = Inr (loadedItems(ID newItem \<mapsto> newItem))"
proof -
  have "keyed_by_id (loadedItems(ID newItem \<mapsto> newItem))"
    using ReadJsonFile_keyed [OF assms(2)] by (rule keyed_by_id_insert)
  then show ?thesis
    using assms by (simp add: postItem_loaded load_after_load_and_save)
qed

lemma WriteJsonFile_write_fault:
  "write_fault (snd (WriteJsonFile J ks itemDict fs)) = write_fault fs"
  by (simp add: WriteJsonFile_def os_Open_def os_WriteFile_def Let_def
      split: option.splits write_fault.splits)

lemma postItem_write_fault: "write_fault (snd (postItem J ks r fs)) = write_fault fs"
proof (cases "Decode J (Body r)")
  case None
  then show ?thesis by (simp add: postItem_malformed)
next
  case (Some newItem)
  show ?thesis
  proof (cases "fst (ReadJsonFile J fs)")
    case (Inl err)
    with Some show ?thesis
      by (simp add: postItem_load_failed ReadJsonFile_snd)
  next
    case (Inr loadedItems)
    with Some show ?thesis
      by (simp add: postItem_loaded WriteJsonFile_write_fault ReadJsonFile_snd)
  qed
qed

text \<open>
  A save that is refused goes unnoticed: the answer is the one for success, and the file
  is what it was.
\<close>

lemma WriteJsonFile_refused:
  "write_fault fs = Some Write_refused \<Longrightarrow>
   contents (snd (WriteJsonFile J ks itemDict fs)) = contents fs"
  by (simp add: WriteJsonFile_def os_Open_def os_WriteFile_def Let_def split: option.splits)

lemma deleteItem_write_refused:
  assumes "extractPathParameters r = Inr idn" and "fst (ReadJsonFile J fs) = Inr loadedItems"
      and "loadedItems idn = Some item" and "write_fault fs = Some Write_refused"
  shows "fst (deleteItem J ks r fs) = \<lparr>status = 204, body = []\<rparr>
       \<and> contents (snd (deleteItem J ks r fs)) = contents fs"
  using assms(4)
  by (simp add: deleteItem_known_id [OF assms(1-3)] WriteJsonFile_refused ReadJsonFile_snd)

lemma postItem_write_refused:
  assumes "Decode J (Body r) = Some newItem" and "fst (ReadJsonFile J fs) = Inr loadedItems"
      and "write_fault fs = Some Write_refused"
  shows "fst (postItem J ks r fs) = \<lparr>status = 200, body = Encode J newItem\<rparr>
       \<and> contents (snd (postItem J ks r fs)) = contents fs"
  using assms(3)
  by (simp add: postItem_loaded [OF assms(1,2)] WriteJsonFile_refused ReadJsonFile_snd)

text \<open>Two upserts to different ids, one after the other: the file then loads with both items.\<close>

lemma postItem_other_id_kept:
  assumes "Decode J (Body r) = Some newItem" and "Decode J (Body r') = Some newItem'"
      and "ID newItem \<noteq> ID newItem'"
      and "fst (ReadJsonFile J fs) = Inr loadedItems"
      and "write_fault fs = None"
      and "range_order (loadedItems(ID newItem \<mapsto> newItem)) ks"
      and "reads_back J (List.map_filter (loadedItems(ID newItem \<mapsto> newItem)) ks)"
      and "range_order (loadedItems(ID newItem \<mapsto> newItem, ID newItem' \<mapsto> newItem')) ks'"
      and "reads_back J
            (List.map_filter (loadedItems(ID newItem \<mapsto> newItem, ID newItem' \<mapsto> newItem')) ks')"
  shows "\<exists>stored. fst (ReadJsonFile J (snd (postItem J ks' r' (snd (postItem J ks r fs))))) = Inr stored
           \<and> stored (ID newItem) = Some newItem \<and> stored (ID newItem') = Some newItem'"
proof -
  let ?first = "snd (postItem J ks r fs)"
  have first: "fst (ReadJsonFile J ?first) = Inr (loadedItems(ID newItem \<mapsto> newItem))"
    using assms(1,4,5,6,7) by (rule postItem_stored)
  have "fst (ReadJsonFile J (snd (postItem J ks' r' ?first)))
      = Inr (loadedItems(ID newItem \<mapsto> newItem, ID newItem' \<mapsto> newItem'))"
    using assms(2) first
  proof (rule postItem_stored)
    show "write_fault ?first = None"
      using assms(5) by (simp add: postItem_write_fault)
  qed (use assms(8,9) in simp_all)
  with assms(3) show ?thesis
    by simp
qed

lemma main_create_fails:
  assumes "contents fs = None" and "create_fails fs"
  shows "fst (main fs) = Panic Create_failed \<and> contents (snd (main fs)) = None"
  using assms
  by (simp add: main_def Exists_def os_Stat_def CreateJsonFile_def os_Create_def)

section \<open>\<open>plain_json\<close> reads back what it writes\<close>

lemma show_digit_props:
  assumes "d < 10"
  shows "is_digit (show_digit d)" and "digit_val (show_digit d) = int d"
proof -
  from assms have "d = 0 \<or> d = 1 \<or> d = 2 \<or> d = 3 \<or> d = 4 \<or> d = 5 \<or> d = 6
      \<or> d = 7 \<or> d = 8 \<or> d = 9"
    by arith
  then show "is_digit (show_digit d)" and "digit_val (show_digit d) = int d"
    by (elim disjE; simp add: show_digit_def is_digit_def digit_val_def)+
qed

lemma decimal_snoc: "decimal (ds @ [c]) = 10 * decimal ds + digit_val c"
  by (simp add: decimal_def)

lemma show_nat_props:
  "list_all is_digit (show_nat n) \<and> show_nat n \<noteq> [] \<and> decimal (show_nat n) = int n"
proof (induction n rule: show_nat.induct)
  case (1 n)
  show ?case
  proof (cases "n < 10")
    case True
    then show ?thesis
      by (subst (1 2 3) show_nat.simps) (simp add: show_digit_props decimal_def)
  next
    case False
    have "n mod 10 < 10"
      by simp
    moreover have "10 * int (n div 10) + int (n mod 10) = int n"
      by presburger
    ultimately show ?thesis
      using False 1
      by (subst (1 2 3) show_nat.simps) (simp add: show_digit_props decimal_snoc)
  qed
qed

lemma takeWhile_stops:
  "rest = [] \<or> \<not> is_digit (hd rest) \<Longrightarrow>
   takeWhile is_digit rest = [] \<and> dropWhile is_digit rest = rest"
  by (cases rest) auto

lemma takeWhile_digits:
  assumes "list_all is_digit ds" and "rest = [] \<or> \<not> is_digit (hd rest)"
  shows "takeWhile is_digit (ds @ rest) = ds" and "dropWhile is_digit (ds @ rest) = rest"
  using assms(1) takeWhile_stops [OF assms(2)] by (induction ds) simp_all

lemma read_int_show_int:
  assumes "rest = [] \<or> \<not> is_digit (hd rest)"
  shows "read_int (show_int i @ rest) = Some (i, rest)"
proof (cases "i < 0")
  case True
  then show ?thesis
    using show_nat_props [of "nat (- i)"] assms
    by (simp add: read_int_def show_int_def takeWhile_digits)
next
  case False
  obtain c cs where shape: "show_nat (nat i) = c # cs"
    using show_nat_props [of "nat i"] by (cases "show_nat (nat i)") auto
  then have "is_digit c"
    using show_nat_props [of "nat i"] by simp
  then have "c \<noteq> CHR ''-''"
    by (auto simp: is_digit_def)
  with False show ?thesis
    using show_nat_props [of "nat i"] assms takeWhile_digits [of "show_nat (nat i)" rest] shape
    by (simp add: read_int_def show_int_def)
qed

lemma read_string_escape: "read_string (escape s @ quote # rest) = Some (s, rest)"
  by (induction s) (auto simp: quote_def backslash_def)

lemma strip_prefix_append: "strip_prefix p (p @ s) = Some s"
  by (induction p) auto

lemma read_Item_show_Item: "read_Item (show_Item item @ rest) = Some (item, rest)"
proof -
  have comma: \<open>\<not> is_digit (hd ('',"name":"'' @ escape (Name item) @ ''"}'' @ rest))\<close>
    by (simp add: is_digit_def)
  have \<open>read_Item (''{"id":'' @ show_int (ID item) @ '',"name":"'' @ escape (Name item) @ ''"}'' @ rest)
      = Some (item, rest)\<close>
    unfolding read_Item_def
    apply (simp only: strip_prefix_append option.case)
    apply (subst read_int_show_int)
     apply (simp add: is_digit_def)
    apply (simp only: option.case prod.case strip_prefix_append)
    apply (subst append_assoc [symmetric])
    apply (simp add: read_string_escape [unfolded quote_def] quote_def)
    done
  then show ?thesis
    by (simp add: show_Item_def)
qed

lemma show_items_Cons:
  "show_items (item # items) =
     show_Item item @ concat (map (\<lambda>next. CHR '','' # show_Item next) items)"
  by (induction items arbitrary: item) simp_all

lemma length_show_tail:
  "length items \<le> length (concat (map (\<lambda>next. CHR '','' # show_Item next) items))"
  by (induction items) simp_all

lemma read_tail_show:
  "length items < fuel \<Longrightarrow>
   read_tail fuel (concat (map (\<lambda>next. CHR '','' # show_Item next) items) @ '']'') = Some items"
proof (induction items arbitrary: fuel)
  case Nil
  then show ?case
    by (cases fuel) simp_all
next
  case (Cons item items)
  then obtain less where fuel: "fuel = Suc less" and "length items < less"
    by (cases fuel) simp_all
  then show ?case
    by (simp add: read_Item_show_Item Cons.IH)
qed

lemma show_Item_starts: "\<exists>cs. show_Item item = CHR ''{'' # cs"
  by (simp add: show_Item_def)

lemma read_items_show_items: "read_items (CHR ''['' # show_items items @ '']'') = Some items"
proof (cases items)
  case Nil
  then show ?thesis
    by (simp add: read_items_def)
next
  case (Cons item rest)
  obtain cs where start: "show_Item item = CHR ''{'' # cs"
    using show_Item_starts by blast
  have "read_Item (show_Item item @ concat (map (\<lambda>next. CHR '','' # show_Item next) rest) @ '']'')
      = Some (item, concat (map (\<lambda>next. CHR '','' # show_Item next) rest) @ '']'')"
    by (rule read_Item_show_Item)
  moreover have "read_tail (length (concat (map (\<lambda>next. CHR '','' # show_Item next) rest) @ '']''))
      (concat (map (\<lambda>next. CHR '','' # show_Item next) rest) @ '']'') = Some rest"
    using length_show_tail [of rest] by (intro read_tail_show) simp
  ultimately show ?thesis
    using start by (simp add: Cons read_items_def show_items_Cons del: read_tail.simps)
qed

lemma plain_json_reads_back: "reads_back plain_json items"
  by (simp add: reads_back_def plain_json_def read_items_show_items)

lemma plain_json_Decode: "Decode plain_json (show_Item item @ rest) = Some item"
  by (simp add: plain_json_def read_Item_show_Item)

section \<open>The model run on sample data\<close>

lemmas plain_json_simps =
  plain_json_def read_items_def read_Item_def read_int_def decimal_def digit_val_def
  is_digit_def quote_def backslash_def show_Item_def show_int_def show_nat.simps show_digit_def

lemmas sample_simps = no_file_def file_with_def item_a_def item_b_def

lemmas path_simps =
  extractPathParameters_def getNthPathSegment_def Atoi_def decimal_def digit_val_def is_digit_def

lemmas request_simps = get_1_def delete_1_def post_a_def

lemma read_empty_array: \<open>fst (ReadJsonFile plain_json (file_with ''[]'')) = Inr Map.empty\<close>
  by (simp add: ReadJsonFile_Inr sample_simps plain_json_simps)

lemma read_file_ab: "fst (ReadJsonFile plain_json file_ab) = Inr [1 \<mapsto> item_a, 2 \<mapsto> item_b]"
  by (simp add: ReadJsonFile_Inr file_ab_def sample_simps plain_json_simps)

lemma read_empty_file: "fst (ReadJsonFile plain_json (file_with [])) = Inl Unmarshal_failed"
  by (simp add: ReadJsonFile_def os_Open_def io_ReadAll_def sample_simps plain_json_simps)

lemma path_items_1:
  "extractPathParameters get_1 = Inr 1" "extractPathParameters delete_1 = Inr 1"
  by (simp_all add: path_simps request_simps)

lemma path_abc: "extractPathParameters get_abc = Inl (Index_out_of_range 2)"
  by (simp add: path_simps get_abc_def)

lemma path_items_abc: "extractPathParameters get_items_abc = Inl Atoi_syntax"
  by (simp add: path_simps get_items_abc_def)

text \<open>
  The id is the third piece of the path, the one after the second slash: \<^verbatim>\<open>/items/1\<close>
  gives 1, and \<^verbatim>\<open>/1\<close> is refused for having no third piece.
\<close>

lemma path_bare_1: "extractPathParameters get_bare_1 = Inl (Index_out_of_range 2)"
  by (simp add: path_simps get_bare_1_def)

lemma decode_post_a: "Decode plain_json (Body post_a) = Some item_a"
  by (simp add: request_simps sample_simps plain_json_simps)

lemma decode_post_c: "Decode plain_json (Body post_c) = Some item_c"
  by (simp add: post_c_def item_c_def plain_json_simps)

lemma reads_back_samples:
  "reads_back plain_json []" "reads_back plain_json [item_a]" "reads_back plain_json [item_b]"
  "reads_back plain_json [item_a, item_b]" "reads_back plain_json [item_b, item_a]"
  by (simp_all add: reads_back_def sample_simps plain_json_simps)

lemma no_write_fault: "write_fault (file_with bytes) = None" "write_fault file_ab = None"
  by (simp_all add: file_ab_def sample_simps)

lemma enumerations:
  "range_order ([1 \<mapsto> item_a, 2 \<mapsto> item_b](1 := None)) [2]"
  "range_order (Map.empty(ID item_a \<mapsto> item_a)) [1]"
  "range_order ([1 \<mapsto> item_a, 2 \<mapsto> item_b](ID item_a \<mapsto> item_a)) [1, 2]"
  "range_order ([1 \<mapsto> item_a, 2 \<mapsto> item_b](ID item_a \<mapsto> item_a)) [2, 1]"
  by (auto simp: range_order_def sample_simps)

lemma written_samples:
  "List.map_filter ([1 \<mapsto> item_a, 2 \<mapsto> item_b](1 := None)) [2 :: int] = [item_b]"
  "List.map_filter (Map.empty(ID item_a \<mapsto> item_a)) [1] = [item_a]"
  "List.map_filter ([1 \<mapsto> item_a, 2 \<mapsto> item_b](ID item_a \<mapsto> item_a)) [1, 2] = [item_a, item_b]"
  "List.map_filter ([1 \<mapsto> item_a, 2 \<mapsto> item_b](ID item_a \<mapsto> item_a)) [2, 1] = [item_b, item_a]"
  by (simp_all add: List.map_filter_simps item_a_def)

lemma path_GET_0_x: "extractParams get_0_x = Inr (0, ''x'')"
  by (simp add: extractParams_def path_simps get_0_x_def)

lemma path_GET_5_x: "extractParams get_5_x = Inr (5, ''x'')"
  by (simp add: extractParams_def path_simps get_5_x_def)

lemma read_no_file: "fst (ReadJsonFile plain_json no_file) = Inl Open_failed"
  by (simp add: ReadJsonFile_def os_Open_def sample_simps)

lemma sample_inj: "inj_on ID (ran ([1 \<mapsto> item_a, 2 \<mapsto> item_b] :: ItemDict))"
  by (simp add: item_a_def item_b_def)

section \<open>Round trip\<close>

text \<open>
  C2. Take a collection whose items have pairwise different ids, an order in which the
  runtime visits its entries, and a JSON library that reads back the slice written for
  them. If \<open>WriteJsonFile\<close> returns no error and the file can be read, the
  \<open>ReadJsonFile\<close> that follows succeeds and its collection holds exactly the same items,
  whatever the order they were written in.
\<close>

theorem save_then_load:
  assumes "range_order itemDict ks" and "inj_on ID (ran itemDict)"
      and "reads_back J (List.map_filter itemDict ks)"
      and "fst (WriteJsonFile J ks itemDict fs) = None"
      and "\<not> read_fails fs"
  shows "\<exists>loaded. fst (ReadJsonFile J (snd (WriteJsonFile J ks itemDict fs))) = Inr loaded
           \<and> ran loaded = ran itemDict"
proof -
  from assms(4) obtain old where old: "contents fs = Some old" "\<not> open_fails fs" "write_fault fs = None"
    by (auto simp: WriteJsonFile_ok)
  have "fst (ReadJsonFile J (snd (WriteJsonFile J ks itemDict fs)))
      = Inr (insert_all Map.empty (List.map_filter itemDict ks))"
    using assms(3,5) old
    by (simp add: WriteJsonFile_snd [OF old] ReadJsonFile_Inr reads_back_def)
  moreover have "ran (insert_all Map.empty (List.map_filter itemDict ks)) = ran itemDict"
    using assms(1,2) by (simp add: ran_insert_all set_map_filter)
  ultimately show ?thesis
    by blast
qed

theorem save_then_load_witness:
  \<open>range_order [1 \<mapsto> item_a, 2 \<mapsto> item_b] [2, 1]
   \<and> inj_on ID (ran ([1 \<mapsto> item_a, 2 \<mapsto> item_b] :: ItemDict))
   \<and> reads_back plain_json (List.map_filter [1 \<mapsto> item_a, 2 \<mapsto> item_b] [2, 1 :: int])
   \<and> fst (WriteJsonFile plain_json [2, 1] [1 \<mapsto> item_a, 2 \<mapsto> item_b] (file_with ''[]'')) = None
   \<and> \<not> read_fails (file_with ''[]'')
   \<and> contents (snd (WriteJsonFile plain_json [2, 1] [1 \<mapsto> item_a, 2 \<mapsto> item_b] (file_with ''[]'')))
       = Some ''[{"id":2,"name":"b"},{"id":1,"name":"a"}]''
   \<and> (\<exists>loaded.
         fst (ReadJsonFile plain_json
           (snd (WriteJsonFile plain_json [2, 1] [1 \<mapsto> item_a, 2 \<mapsto> item_b] (file_with ''[]''))))
         = Inr loaded
       \<and> ran loaded = ran ([1 \<mapsto> item_a, 2 \<mapsto> item_b] :: ItemDict))\<close>
proof -
  let ?m = "[1 \<mapsto> item_a, 2 \<mapsto> item_b] :: ItemDict"
  let ?fs = "file_with ''[]''"
  have order: "range_order ?m [2, 1]"
    by (auto simp: range_order_def)
  have items: "List.map_filter ?m [2, 1] = [item_b, item_a]"
    by (simp add: List.map_filter_simps)
  have readsback: "reads_back plain_json (List.map_filter ?m [2, 1])"
    by (simp only: items reads_back_samples)
  have saved: "fst (WriteJsonFile plain_json [2, 1] ?m ?fs) = None"
    by (simp add: WriteJsonFile_ok sample_simps)
  have readable: "\<not> read_fails ?fs"
    by (simp add: sample_simps)
  have bytes: \<open>contents (snd (WriteJsonFile plain_json [2, 1] ?m ?fs))
      = Some ''[{"id":2,"name":"b"},{"id":1,"name":"a"}]''\<close>
    by (simp add: WriteJsonFile_snd [where old = "''[]''"] items plain_json_simps sample_simps)
  show ?thesis
    using save_then_load [OF order sample_inj readsback saved readable]
      order sample_inj readsback saved readable bytes
    by (simp only: simp_thms)
qed

section \<open>Delete by id\<close>

text \<open>
  Past the parse of the id, \<open>deleteItem\<close> does the following on a file that loads as
  \<open>loadedItems\<close>. If the id is absent the answer is 404, the bytes of the file are what
  they were and no call that could change the file was made. If the id is present (and
  writes go through, \<open>ks\<close> is the order in which the runtime visits the remaining
  entries, and the JSON library reads back what it writes for them) the answer is 204
  with an empty body, and the file then loads as the collection without that entry.
\<close>

lemma deleteItem_parsed_id:
  assumes "extractPathParameters r = Inr idn"
      and "fst (ReadJsonFile J fs) = Inr loadedItems"
  shows "(loadedItems idn = None \<longrightarrow>
            fst (deleteItem J ks r fs) = http_Error ''Not found'' 404
          \<and> contents (snd (deleteItem J ks r fs)) = contents fs
          \<and> mutations (snd (deleteItem J ks r fs)) = mutations fs)
       \<and> (loadedItems idn \<noteq> None
          \<and> write_fault fs = None
          \<and> range_order (loadedItems(idn := None)) ks
          \<and> reads_back J (List.map_filter (loadedItems(idn := None)) ks) \<longrightarrow>
            fst (deleteItem J ks r fs) = \<lparr>status = 204, body = []\<rparr>
          \<and> fst (ReadJsonFile J (snd (deleteItem J ks r fs))) = Inr (loadedItems(idn := None)))"
proof (intro conjI impI)
  assume "loadedItems idn = None"
  note absent = deleteItem_unknown_id [OF assms this]
  show "fst (deleteItem J ks r fs) = http_Error ''Not found'' 404"
    by (simp add: absent)
  show "contents (snd (deleteItem J ks r fs)) = contents fs"
    by (simp add: absent ReadJsonFile_contents)
  show "mutations (snd (deleteItem J ks r fs)) = mutations fs"
    by (simp add: absent ReadJsonFile_mutations)
next
  assume present: "loadedItems idn \<noteq> None
      \<and> write_fault fs = None
      \<and> range_order (loadedItems(idn := None)) ks
      \<and> reads_back J (List.map_filter (loadedItems(idn := None)) ks)"
  then obtain item where "loadedItems idn = Some item"
    by auto
  note known = deleteItem_known_id [OF assms this]
  show "fst (deleteItem J ks r fs) = \<lparr>status = 204, body = []\<rparr>"
    by (simp add: known)
  have "keyed_by_id (loadedItems(idn := None))"
    using ReadJsonFile_keyed [OF assms(2)] by (rule keyed_by_id_delete)
  then show "fst (ReadJsonFile J (snd (deleteItem J ks r fs))) = Inr (loadedItems(idn := None))"
    using present assms(2) by (simp add: known load_after_load_and_save)
qed

lemma deleteItem_parsed_id_example:
  \<open>extractPathParameters delete_1 = Inr 1
   \<and> fst (ReadJsonFile plain_json (file_with ''[]'')) = Inr Map.empty
   \<and> fst (deleteItem plain_json [] delete_1 (file_with ''[]'')) = http_Error ''Not found'' 404
   \<and> contents (snd (deleteItem plain_json [] delete_1 (file_with ''[]''))) = Some ''[]''
   \<and> mutations (snd (deleteItem plain_json [] delete_1 (file_with ''[]''))) = []
   \<and> fst (ReadJsonFile plain_json file_ab) = Inr [1 \<mapsto> item_a, 2 \<mapsto> item_b]
   \<and> fst (deleteItem plain_json [2] delete_1 file_ab) = \<lparr>status = 204, body = []\<rparr>
   \<and> fst (ReadJsonFile plain_json (snd (deleteItem plain_json [2] delete_1 file_ab)))
       = Inr ([1 \<mapsto> item_a, 2 \<mapsto> item_b](1 := None))\<close>
proof -
  have start: \<open>contents (file_with ''[]'') = Some ''[]''\<close> \<open>mutations (file_with ''[]'') = []\<close>
    by (simp_all add: sample_simps mutations_def)
  have present: "[1 \<mapsto> item_a, 2 \<mapsto> item_b] (1 :: int) \<noteq> None"
    by simp
  have readsback: "reads_back plain_json (List.map_filter ([1 \<mapsto> item_a, 2 \<mapsto> item_b](1 := None)) [2 :: int])"
    by (simp only: written_samples reads_back_samples)
  note absent_case = deleteItem_parsed_id [OF path_items_1(2) read_empty_array, of "[]", THEN conjunct1, rule_format]
  note present_case = deleteItem_parsed_id [OF path_items_1(2) read_file_ab, of "[2]", THEN conjunct2, rule_format]
  show ?thesis
    using absent_case present_case [OF conjI [OF present conjI [OF no_write_fault(2) conjI [OF enumerations(1) readsback]]]]
      path_items_1(2) read_empty_array read_file_ab
    by (simp only: start simp_thms)
qed

text \<open>
  C3. The route is registered under \<^verbatim>\<open>/\<close> and commented \<^verbatim>\<open>DELETE /{id}\<close>. On such a
  request, whose path is one slash and the id, \<open>extractPathParameters\<close> looks for a piece
  at index 2 and finds the path too short: \<open>deleteItem\<close> answers 400 and hands back the
  state it was given. The collection is not loaded and nothing is removed, whether the
  id is stored or not, so the answer is neither the 404 nor the 204 of a delete by id.
\<close>

theorem deleteItem_bare_path:
  assumes "Path r = CHR ''/'' # seg" and "CHR ''/'' \<notin> set seg"
  shows "extractPathParameters r = Inl (Index_out_of_range 2)
       \<and> deleteItem J ks r fs = (http_Error ''Invalid Parameter'' 400, fs)"
  using extractPathParameters_bare_path [OF assms]
  by (simp add: deleteItem_invalid)

theorem deleteItem_bare_path_witness:
  "Path delete_bare_1 = CHR ''/'' # ''1''
   \<and> CHR ''/'' \<notin> set ''1''
   \<and> Atoi ''1'' = Inr 1
   \<and> fst (ReadJsonFile plain_json file_ab) = Inr [1 \<mapsto> item_a, 2 \<mapsto> item_b]
   \<and> extractPathParameters delete_bare_1 = Inl (Index_out_of_range 2)
   \<and> deleteItem plain_json [2] delete_bare_1 file_ab
       = (http_Error ''Invalid Parameter'' 400, file_ab)
   \<and> status (http_Error ''Invalid Parameter'' 400) = 400"
proof -
  have path: "Path delete_bare_1 = CHR ''/'' # ''1''"
    by (simp add: delete_bare_1_def)
  have plain: "CHR ''/'' \<notin> set ''1''"
    by simp
  have number: "Atoi ''1'' = Inr 1"
    by (simp add: Atoi_def decimal_def digit_val_def is_digit_def)
  have code: "status (http_Error ''Invalid Parameter'' 400) = 400"
    by (simp add: http_Error_def)
  show ?thesis
    using deleteItem_bare_path [OF path plain, of plain_json "[2]" file_ab] path plain number
      read_file_ab code
    by (simp only: simp_thms)
qed

section \<open>Upsert\<close>

text \<open>
  C4. A POST request whose body does not decode is answered with 400 and the state is
  left as it was, calls included. A body that decodes to \<open>newItem\<close>, on a file that loads as
  \<open>loadedItems\<close> (writes go through, \<open>ks\<close> is the order in which the runtime visits the
  entries to be written, and the JSON library reads back what it writes for them), is
  answered with 200 and the encoding of \<open>newItem\<close>, and the file then loads as
  \<open>loadedItems\<close> with \<open>newItem\<close> under its own id, whether that id was there before
  or not.
\<close>

theorem postItem_upsert:
  "(Decode J (Body r) = None \<longrightarrow>
      postItem J ks r fs = (http_Error ''Invalid Parameter'' 400, fs))
   \<and> (Decode J (Body r) = Some newItem
      \<and> fst (ReadJsonFile J fs) = Inr loadedItems
      \<and> write_fault fs = None
      \<and> range_order (loadedItems(ID newItem \<mapsto> newItem)) ks
      \<and> reads_back J (List.map_filter (loadedItems(ID newItem \<mapsto> newItem)) ks) \<longrightarrow>
        fst (postItem J ks r fs) = \<lparr>status = 200, body = Encode J newItem\<rparr>
      \<and> fst (ReadJsonFile J (snd (postItem J ks r fs)))
          = Inr (loadedItems(ID newItem \<mapsto> newItem)))"
  by (simp add: postItem_malformed postItem_stored) (simp add: postItem_loaded)

theorem postItem_upsert_witness:
  \<open>Decode plain_json (Body get_1) = None
   \<and> postItem plain_json [] get_1 file_ab = (http_Error ''Invalid Parameter'' 400, file_ab)
   \<and> Decode plain_json (Body post_a) = Some item_a
   \<and> fst (ReadJsonFile plain_json (file_with ''[]'')) = Inr Map.empty
   \<and> fst (postItem plain_json [1] post_a (file_with ''[]''))
       = \<lparr>status = 200, body = Encode plain_json item_a\<rparr>
   \<and> fst (ReadJsonFile plain_json (snd (postItem plain_json [1] post_a (file_with ''[]''))))
       = Inr (Map.empty(ID item_a \<mapsto> item_a))
   \<and> Decode plain_json (Body post_c) = Some item_c
   \<and> fst (ReadJsonFile plain_json file_ab) = Inr [1 \<mapsto> item_a, 2 \<mapsto> item_b]
   \<and> fst (postItem plain_json [2, 1] post_c file_ab)
       = \<lparr>status = 200, body = Encode plain_json item_c\<rparr>
   \<and> fst (ReadJsonFile plain_json (snd (postItem plain_json [2, 1] post_c file_ab)))
       = Inr ([1 \<mapsto> item_a, 2 \<mapsto> item_b](ID item_c \<mapsto> item_c))\<close>
proof -
  have malformed: "Decode plain_json (Body get_1) = None"
    by (simp add: request_simps plain_json_simps)
  have readsback: "reads_back plain_json (List.map_filter (Map.empty(ID item_a \<mapsto> item_a)) [1])"
    by (rule plain_json_reads_back)
  have order: "range_order ([1 \<mapsto> item_a, 2 \<mapsto> item_b](ID item_c \<mapsto> item_c)) [2, 1]"
    by (auto simp: range_order_def item_c_def)
  have readsback': "reads_back plain_json
      (List.map_filter ([1 \<mapsto> item_a, 2 \<mapsto> item_b](ID item_c \<mapsto> item_c)) [2, 1])"
    by (rule plain_json_reads_back)
  note refused = postItem_upsert [where J = plain_json and r = get_1 and ks = "[]" and fs = file_ab,
      THEN conjunct1, rule_format]
  note stored = postItem_upsert [where J = plain_json and r = post_a and newItem = item_a
      and fs = "file_with ''[]''" and loadedItems = Map.empty and ks = "[1]",
      THEN conjunct2, rule_format]
  note replaced = postItem_upsert [where J = plain_json and r = post_c and newItem = item_c
      and fs = file_ab and loadedItems = "[1 \<mapsto> item_a, 2 \<mapsto> item_b]" and ks = "[2, 1]",
      THEN conjunct2, rule_format]
  show ?thesis
    using refused [OF malformed]
      stored [OF conjI [OF decode_post_a conjI [OF read_empty_array conjI [OF no_write_fault(1) conjI [OF enumerations(2) readsback]]]]]
      replaced [OF conjI [OF decode_post_c conjI [OF read_file_ab conjI [OF no_write_fault(2) conjI [OF order readsback']]]]]
      malformed decode_post_a decode_post_c read_empty_array read_file_ab
    by (simp only: simp_thms)
qed

section \<open>First start\<close>

text \<open>
  C5. What \<open>main\<close> does when the file is absent and can be created: it goes on to
  serve, and the file it leaves holds no bytes at all, not the two bytes \<^verbatim>\<open>[]\<close>.
  \<^verbatim>\<open>json.Unmarshal\<close> refuses the empty input, so the \<open>ReadJsonFile\<close> that follows
  returns an error rather than the empty collection.
\<close>

theorem main_creates_empty_file:
  assumes "contents fs = None" and "\<not> create_fails fs" and "Unmarshal J [] = None"
  shows "fst (main fs) = Serving
       \<and> contents (snd (main fs)) = Some []
       \<and> isl (fst (ReadJsonFile J (snd (main fs))))"
  using assms
  by (simp add: main_def Exists_def os_Stat_def CreateJsonFile_def os_Create_def
      ReadJsonFile_def os_Open_def io_ReadAll_def)

theorem main_creates_empty_file_witness:
  "contents no_file = None
   \<and> \<not> create_fails no_file
   \<and> Unmarshal plain_json [] = None
   \<and> fst (main no_file) = Serving
   \<and> contents (snd (main no_file)) = Some []
   \<and> isl (fst (ReadJsonFile plain_json (snd (main no_file))))
   \<and> fst (getItem plain_json get_1 (snd (main no_file))) = http_Error ''Internal server error'' 500
   \<and> fst (postItem plain_json [1] post_a (snd (main no_file)))
       = http_Error ''Internal server error'' 500"
proof -
  have absent: "contents no_file = None" and creatable: "\<not> create_fails no_file"
    by (simp_all add: no_file_def)
  have refused: "Unmarshal plain_json [] = None"
    by (simp add: plain_json_simps)
  note started = main_creates_empty_file [OF absent creatable refused]
  from started obtain err where failed: "fst (ReadJsonFile plain_json (snd (main no_file))) = Inl err"
    by (cases "fst (ReadJsonFile plain_json (snd (main no_file)))") simp_all
  have get: "fst (getItem plain_json get_1 (snd (main no_file)))
      = http_Error ''Internal server error'' 500"
    by (simp add: getItem_load_failed [OF path_items_1(1) failed])
  have post: "fst (postItem plain_json [1] post_a (snd (main no_file)))
      = http_Error ''Internal server error'' 500"
    by (simp add: postItem_load_failed [OF decode_post_a failed])
  show ?thesis
    using started absent creatable refused get post
    by (simp only: simp_thms)
qed

section \<open>Fetching an unknown id\<close>

text \<open>
  \<open>getItem\<close> of \<^verbatim>\<open>src/main.go\<close> answers an id the collection does not hold with 404
  (\<open>getItem_unknown_id\<close> above).

  C6. What the \<open>getItem\<close> of \<^verbatim>\<open>src/unnamed/part_000\<close> answers to an id the collection
  does not hold: a map read at a missing key gives the zero item, whose \<open>ID\<close> is 0, so the
  id 0 passes the comparison and is answered with 200 and the zero item; every other id
  is answered with 400. The answer is never 404.
\<close>

theorem getItem_part_000_unknown_id:
  assumes "extractParams r = Inr (idn, name)"
      and "fst (ReadJsonFile J fs) = Inr loadedItems"
      and "loadedItems idn = None"
  shows "fst (getItem_part_000 J r fs) =
           (if idn = 0 then \<lparr>status = 200, body = Encode J zero_Item\<rparr>
            else http_Error ''Invalid ID'' 400)
       \<and> status (fst (getItem_part_000 J r fs)) \<noteq> 404"
  using assms
  by (cases "ReadJsonFile J fs")
     (auto simp: getItem_part_000_def lookup_def zero_Item_def http_Error_def)

theorem getItem_part_000_unknown_id_witness:
  \<open>extractParams get_0_x = Inr (0, ''x'')
   \<and> extractParams get_5_x = Inr (5, ''x'')
   \<and> fst (ReadJsonFile plain_json (file_with ''[]'')) = Inr Map.empty
   \<and> fst (getItem_part_000 plain_json get_0_x (file_with ''[]''))
       = \<lparr>status = 200, body = ''{"id":0,"name":""}'' @ [CHR 0x0A]\<rparr>
   \<and> fst (getItem_part_000 plain_json get_5_x (file_with ''[]'')) = http_Error ''Invalid ID'' 400\<close>
proof -
  have body: \<open>Encode plain_json zero_Item = ''{"id":0,"name":""}'' @ [CHR 0x0A]\<close>
    by (simp add: zero_Item_def plain_json_simps)
  have unknown: "Map.empty (0 :: int) = (None :: Item option)" "Map.empty (5 :: int) = (None :: Item option)"
    by simp_all
  show ?thesis
    using getItem_part_000_unknown_id [OF path_GET_0_x read_empty_array unknown(1)]
      getItem_part_000_unknown_id [OF path_GET_5_x read_empty_array unknown(2)]
      path_GET_0_x path_GET_5_x read_empty_array
    by (simp add: body)
qed

section \<open>Upsert twice\<close>

text \<open>
  C7. The same POST request sent twice in a row, on a file that loads as \<open>loadedItems\<close>
  (writes go through; \<open>ks\<close> and \<open>ks'\<close> are the orders in which the runtime visits the
  entries at the first and at the second save, and the JSON library reads back what it
  writes for them): the file loads as the same collection after the second request as
  after the first.
\<close>

theorem postItem_twice:
  assumes "Decode J (Body r) = Some newItem"
      and "fst (ReadJsonFile J fs) = Inr loadedItems"
      and "write_fault fs = None"
      and "range_order (loadedItems(ID newItem \<mapsto> newItem)) ks"
      and "reads_back J (List.map_filter (loadedItems(ID newItem \<mapsto> newItem)) ks)"
      and "range_order (loadedItems(ID newItem \<mapsto> newItem)) ks'"
      and "reads_back J (List.map_filter (loadedItems(ID newItem \<mapsto> newItem)) ks')"
  shows "fst (ReadJsonFile J (snd (postItem J ks' r (snd (postItem J ks r fs)))))
         = fst (ReadJsonFile J (snd (postItem J ks r fs)))"
proof -
  let ?stored = "loadedItems(ID newItem \<mapsto> newItem)"
  let ?once = "snd (postItem J ks r fs)"
  have once: "fst (ReadJsonFile J ?once) = Inr ?stored"
    using assms(1-5) by (rule postItem_stored)
  have same: "?stored(ID newItem \<mapsto> newItem) = ?stored"
    by simp
  have "fst (ReadJsonFile J (snd (postItem J ks' r ?once))) = Inr (?stored(ID newItem \<mapsto> newItem))"
    using assms(1) once
  proof (rule postItem_stored)
    show "write_fault ?once = None"
      using assms(3) by (simp add: postItem_write_fault)
    show "range_order (?stored(ID newItem \<mapsto> newItem)) ks'"
      using assms(6) by (simp only: same)
    show "reads_back J (List.map_filter (?stored(ID newItem \<mapsto> newItem)) ks')"
      using assms(7) by (simp only: same)
  qed
  with once show ?thesis
    by (simp only: same)
qed

theorem postItem_twice_witness:
  "Decode plain_json (Body post_a) = Some item_a
   \<and> fst (ReadJsonFile plain_json file_ab) = Inr [1 \<mapsto> item_a, 2 \<mapsto> item_b]
   \<and> write_fault file_ab = None
   \<and> range_order ([1 \<mapsto> item_a, 2 \<mapsto> item_b](ID item_a \<mapsto> item_a)) [1, 2]
   \<and> range_order ([1 \<mapsto> item_a, 2 \<mapsto> item_b](ID item_a \<mapsto> item_a)) [2, 1]
   \<and> fst (ReadJsonFile plain_json
         (snd (postItem plain_json [2, 1] post_a (snd (postItem plain_json [1, 2] post_a file_ab)))))
       = fst (ReadJsonFile plain_json (snd (postItem plain_json [1, 2] post_a file_ab)))"
proof -
  have rb12: "reads_back plain_json
      (List.map_filter ([1 \<mapsto> item_a, 2 \<mapsto> item_b](ID item_a \<mapsto> item_a)) [1, 2])"
    by (simp only: written_samples reads_back_samples)
  have rb21: "reads_back plain_json
      (List.map_filter ([1 \<mapsto> item_a, 2 \<mapsto> item_b](ID item_a \<mapsto> item_a)) [2, 1])"
    by (simp only: written_samples reads_back_samples)
  show ?thesis
    using postItem_twice [OF decode_post_a read_file_ab no_write_fault(2) enumerations(3) rb12
        enumerations(4) rb21]
      decode_post_a read_file_ab no_write_fault(2) enumerations(3) enumerations(4)
    by (simp only: simp_thms)
qed

section \<open>When loading fails\<close>

text \<open>
  C8. When \<open>ReadJsonFile\<close> returns an error, each of the three handlers, once it has
  its id (\<open>getItem\<close>, \<open>deleteItem\<close>) or its item (\<open>postItem\<close>), answers with 500; the
  bytes of the file are what they were, and no call that could change the file was made.
\<close>

theorem load_failure_answers_500:
  assumes "fst (ReadJsonFile J fs) = Inl err"
      and "extractPathParameters r = Inr idn"
      and "Decode J (Body p) = Some newItem"
  shows "fst (getItem J r fs) = http_Error ''Internal server error'' 500
       \<and> contents (snd (getItem J r fs)) = contents fs
       \<and> mutations (snd (getItem J r fs)) = mutations fs
       \<and> fst (deleteItem J ks r fs) = http_Error ''Internal server error'' 500
       \<and> contents (snd (deleteItem J ks r fs)) = contents fs
       \<and> mutations (snd (deleteItem J ks r fs)) = mutations fs
       \<and> fst (postItem J ks p fs) = http_Error ''Internal server error'' 500
       \<and> contents (snd (postItem J ks p fs)) = contents fs
       \<and> mutations (snd (postItem J ks p fs)) = mutations fs"
  using assms
  by (simp add: getItem_load_failed deleteItem_load_failed postItem_load_failed
      ReadJsonFile_contents ReadJsonFile_mutations)

theorem load_failure_answers_500_witness:
  "fst (ReadJsonFile plain_json (file_with [])) = Inl Unmarshal_failed
   \<and> fst (ReadJsonFile plain_json no_file) = Inl Open_failed
   \<and> extractPathParameters get_1 = Inr 1
   \<and> extractPathParameters delete_1 = Inr 1
   \<and> Decode plain_json (Body post_a) = Some item_a
   \<and> fst (getItem plain_json get_1 (file_with [])) = http_Error ''Internal server error'' 500
   \<and> contents (snd (getItem plain_json get_1 (file_with []))) = Some []
   \<and> mutations (snd (getItem plain_json get_1 (file_with []))) = []
   \<and> fst (deleteItem plain_json [] delete_1 no_file) = http_Error ''Internal server error'' 500
   \<and> contents (snd (deleteItem plain_json [] delete_1 no_file)) = None
   \<and> mutations (snd (deleteItem plain_json [] delete_1 no_file)) = []
   \<and> fst (postItem plain_json [1] post_a (file_with [])) = http_Error ''Internal server error'' 500
   \<and> contents (snd (postItem plain_json [1] post_a (file_with []))) = Some []
   \<and> mutations (snd (postItem plain_json [1] post_a (file_with []))) = []"
proof -
  have start: "contents (file_with []) = Some []" "mutations (file_with []) = []"
      "contents no_file = None" "mutations no_file = []"
    by (simp_all add: sample_simps mutations_def)
  note unparsable = load_failure_answers_500 [OF read_empty_file path_items_1(1) decode_post_a]
  note missing = load_failure_answers_500 [OF read_no_file path_items_1(2) decode_post_a]
  show ?thesis
    using unparsable [of "[1]"] missing [of "[]"] read_empty_file read_no_file path_items_1
      decode_post_a
    by (simp only: start simp_thms)
qed

section \<open>Requests without a valid id\<close>

text \<open>
  C9. When \<open>extractPathParameters\<close> returns an error (the path has no third segment, as
  in \<^verbatim>\<open>/abc\<close>, or \<open>Atoi\<close> refuses it), \<open>getItem\<close> and \<open>deleteItem\<close> answer with 400 and
  hand back the state they were given: the file and the list of calls are unchanged, so
  the file was neither read nor written.
\<close>

theorem invalid_id_rejected:
  assumes "extractPathParameters r = Inl err"
  shows "getItem J r fs = (http_Error ''Invalid Parameter'' 400, fs)
       \<and> deleteItem J ks r fs = (http_Error ''Invalid Parameter'' 400, fs)"
  using assms by (simp add: getItem_invalid deleteItem_invalid)

theorem invalid_id_rejected_witness:
  "extractPathParameters get_abc = Inl (Index_out_of_range 2)
   \<and> getItem plain_json get_abc file_ab = (http_Error ''Invalid Parameter'' 400, file_ab)
   \<and> deleteItem plain_json [1, 2] get_abc file_ab = (http_Error ''Invalid Parameter'' 400, file_ab)
   \<and> extractPathParameters get_items_abc = Inl Atoi_syntax
   \<and> getItem plain_json get_items_abc no_file = (http_Error ''Invalid Parameter'' 400, no_file)
   \<and> deleteItem plain_json [] get_items_abc no_file = (http_Error ''Invalid Parameter'' 400, no_file)"
  using invalid_id_rejected [OF path_abc, of plain_json file_ab "[1, 2]"]
    invalid_id_rejected [OF path_items_abc, of plain_json no_file "[]"]
    path_abc path_items_abc
  by (simp only: simp_thms)

section \<open>Saving when the file is missing\<close>

text \<open>
  C10. When the backing file is absent, \<open>WriteJsonFile\<close> returns the error of its
  \<^verbatim>\<open>os.Open\<close>, the file is still absent afterwards, and the open attempt is the only
  call it made: nothing was created or written.
\<close>

theorem WriteJsonFile_missing_file:
  assumes "contents fs = None"
  shows "fst (WriteJsonFile J ks itemDict fs) = Some Open_failed
       \<and> contents (snd (WriteJsonFile J ks itemDict fs)) = None
       \<and> calls (snd (WriteJsonFile J ks itemDict fs)) = calls fs @ [Open]"
  using assms by (simp add: WriteJsonFile_def os_Open_def called_def)

theorem WriteJsonFile_missing_file_witness:
  "contents no_file = None
   \<and> fst (WriteJsonFile plain_json [1] [1 \<mapsto> item_a] no_file) = Some Open_failed
   \<and> contents (snd (WriteJsonFile plain_json [1] [1 \<mapsto> item_a] no_file)) = None
   \<and> calls (snd (WriteJsonFile plain_json [1] [1 \<mapsto> item_a] no_file)) = [Open]"
proof -
  have absent: "contents no_file = None"
    by (simp add: no_file_def)
  show ?thesis
    using WriteJsonFile_missing_file [OF absent, of plain_json "[1]" "[1 \<mapsto> item_a]"] absent
    by (simp add: no_file_def)
qed

end
